theory Spec2Isabelle
  imports Main
begin

section \<open>Data model\<close>

text \<open>
  The package \<^verbatim>\<open>awsbastion\<close> (file \<^verbatim>\<open>main.go\<close>) keeps one set of temporary
  credentials in the file \<^verbatim>\<open>bastion_credentials_session.json\<close>, derives a new set
  through the bastion profile (which asks for an MFA code on standard input) when the
  file cannot be read, and checks the session it builds with a caller-supplied ping.

  The source holds a later revision of the same file as well, which keeps the file under
  the home directory and takes the ping as an interface value; its control flow is the
  same, and the model follows the first.

  A Go \<^verbatim>\<open>error\<close> is represented by its message (\<^verbatim>\<open>err.Error()\<close>), so that
  \<^verbatim>\<open>fmt.Errorf("...: %v", err)\<close> is the concatenation of the prefix and the message.
  A function returning \<^verbatim>\<open>(T, error)\<close> returns \<open>error + T\<close>, one returning only
  \<^verbatim>\<open>error\<close> returns \<open>error option\<close> (\<open>None\<close> is \<^verbatim>\<open>nil\<close>).
\<close>

type_synonym error = string

text \<open>\<^verbatim>\<open>credentials.Value\<close> of the AWS SDK: four strings, marshalled as they are.\<close>

record Value =
  AccessKeyID :: string
  SecretAccessKey :: string
  SessionToken :: string
  ProviderName :: string

text \<open>
  The two credential providers the package uses: \<^verbatim>\<open>credentials.StaticProvider\<close>
  around a value read from the file, and the provider made by
  \<^verbatim>\<open>stscreds.NewCredentials(bastionSession, assumedRoleARN)\<close>, identified by the
  profile of the bastion session and the role.
\<close>

datatype Provider =
    StaticProvider Value
  | AssumeRoleProvider string string

text \<open>
  \<^verbatim>\<open>credentials.Credentials\<close>: a provider and the value it has produced, if it has been
  asked already. The SDK retrieves lazily, on the first \<^verbatim>\<open>Get\<close>, and keeps the value
  (expiry is outside the model: no time passes during one call).
\<close>

record Credentials =
  provider :: Provider
  retrieved :: "Value option"

record Config =
  Region :: string
  cfg_Credentials :: "Credentials option"

record Session =
  sess_Config :: Config

text \<open>
  What the program does to the outside, in the order it does it. The flag tells
  whether the operation succeeded.
\<close>

datatype event =
    EvReadFile string bool
  | EvWriteFile string string bool
  | EvRemove string bool
  | EvNewSessionWithOptions string bool
  | EvMFAPrompt string string bool
  | EvNewSession bool
  | EvPing Session bool

text \<open>The state the program acts on: the files, and the history of its operations.\<close>

record world =
  files :: "string \<rightharpoonup> string"
  trace :: "event list"

text \<open>
  The collaborators that are not part of the package: faults of the file system, the
  JSON codec, the SDK's session constructors and the role assumption behind the MFA
  prompt. Each may answer differently at each moment, so each is given the history.
  A write that fails reports what it left at the path.
\<close>

record env =
  ReadFile_fault :: "event list \<Rightarrow> string \<Rightarrow> error option"
  WriteFile_fault :: "event list \<Rightarrow> string \<Rightarrow> (error \<times> string option) option"
  Remove_fault :: "event list \<Rightarrow> string \<Rightarrow> error option"
  json_Marshal :: "Value \<Rightarrow> error + string"
  json_Unmarshal :: "string \<Rightarrow> error + Value"
  NewSessionWithOptions_fault :: "event list \<Rightarrow> string \<Rightarrow> error option"
  AssumeRole :: "event list \<Rightarrow> string \<Rightarrow> string \<Rightarrow> error + Value"
  NewSession_fault :: "event list \<Rightarrow> Config \<Rightarrow> error option"

text \<open>
  \<^verbatim>\<open>type Ping func(sess *session.Session) error\<close>. The function is the caller's and may
  reach the network, so its answer may depend on the history as well as on the session.
\<close>

type_synonym Ping = "event list \<Rightarrow> Session \<Rightarrow> error option"

section \<open>The operations of the environment\<close>

definition record_event :: "event \<Rightarrow> world \<Rightarrow> world" where
  "record_event e w = w\<lparr>trace := trace w @ [e]\<rparr>"

definition ioutil_ReadFile :: "env \<Rightarrow> string \<Rightarrow> world \<Rightarrow> (error + string) \<times> world" where
  "ioutil_ReadFile E name w =
     (case ReadFile_fault E (trace w) name of
        Some e \<Rightarrow> (Inl e, record_event (EvReadFile name False) w)
      | None \<Rightarrow>
          (case files w name of
             None \<Rightarrow> (Inl (''open '' @ name @ '': no such file or directory''),
                       record_event (EvReadFile name False) w)
           | Some b \<Rightarrow> (Inr b, record_event (EvReadFile name True) w)))"

definition ioutil_WriteFile :: "env \<Rightarrow> string \<Rightarrow> string \<Rightarrow> world \<Rightarrow> error option \<times> world" where
  "ioutil_WriteFile E name b w =
     (case WriteFile_fault E (trace w) name of
        Some (e, left) \<Rightarrow>
          (Some e, record_event (EvWriteFile name b False) (w\<lparr>files := (files w)(name := left)\<rparr>))
      | None \<Rightarrow>
          (None, record_event (EvWriteFile name b True) (w\<lparr>files := (files w)(name \<mapsto> b)\<rparr>)))"

definition os_Remove :: "env \<Rightarrow> string \<Rightarrow> world \<Rightarrow> error option \<times> world" where
  "os_Remove E name w =
     (case Remove_fault E (trace w) name of
        Some e \<Rightarrow> (Some e, record_event (EvRemove name False) w)
      | None \<Rightarrow>
          (case files w name of
             None \<Rightarrow> (Some (''remove '' @ name @ '': no such file or directory''),
                       record_event (EvRemove name False) w)
           | Some b \<Rightarrow>
               (None, record_event (EvRemove name True) (w\<lparr>files := (files w)(name := None)\<rparr>))))"

definition NewCredentials :: "Provider \<Rightarrow> Credentials" where
  "NewCredentials p = \<lparr>provider = p, retrieved = None\<rparr>"

definition stscreds_NewCredentials :: "string \<Rightarrow> string \<Rightarrow> Credentials" where
  "stscreds_NewCredentials bastionSession roleARN =
     NewCredentials (AssumeRoleProvider bastionSession roleARN)"

text \<open>
  \<^verbatim>\<open>creds.Get()\<close>: the value kept, or else the provider's. The static provider refuses
  empty keys and fills in its name; the role provider assumes the role, which is where
  the MFA code is asked for. The credentials object is changed in place in Go, so the
  updated object is returned.
\<close>

definition Get :: "env \<Rightarrow> Credentials \<Rightarrow> world \<Rightarrow> (error + Value) \<times> Credentials \<times> world" where
  "Get E c w =
     (case retrieved c of
        Some v \<Rightarrow> (Inr v, c, w)
      | None \<Rightarrow>
          (case provider c of
             StaticProvider v \<Rightarrow>
               (if AccessKeyID v = [] \<or> SecretAccessKey v = []
                then (Inl ''EmptyStaticCreds: static credentials are empty'', c, w)
                else let v' = (if ProviderName v = [] then v\<lparr>ProviderName := ''StaticProvider''\<rparr> else v)
                     in (Inr v', c\<lparr>retrieved := Some v'\<rparr>, w))
           | AssumeRoleProvider profile roleARN \<Rightarrow>
               (case AssumeRole E (trace w) profile roleARN of
                  Inl e \<Rightarrow> (Inl e, c, record_event (EvMFAPrompt profile roleARN False) w)
                | Inr v \<Rightarrow>
                    (Inr v, c\<lparr>retrieved := Some v\<rparr>,
                     record_event (EvMFAPrompt profile roleARN True) w))))"

definition session_NewSessionWithOptions :: "env \<Rightarrow> string \<Rightarrow> world \<Rightarrow> (error + string) \<times> world" where
  "session_NewSessionWithOptions E profile w =
     (case NewSessionWithOptions_fault E (trace w) profile of
        Some e \<Rightarrow> (Inl e, record_event (EvNewSessionWithOptions profile False) w)
      | None \<Rightarrow> (Inr profile, record_event (EvNewSessionWithOptions profile True) w))"

definition WithCredentials :: "Config \<Rightarrow> Credentials \<Rightarrow> Config" where
  "WithCredentials cfg c = cfg\<lparr>cfg_Credentials := Some c\<rparr>"

definition session_NewSession :: "env \<Rightarrow> Config \<Rightarrow> world \<Rightarrow> (error + Session) \<times> world" where
  "session_NewSession E cfg w =
     (case NewSession_fault E (trace w) cfg of
        Some e \<Rightarrow> (Inl e, record_event (EvNewSession False) w)
      | None \<Rightarrow> (Inr \<lparr>sess_Config = cfg\<rparr>, record_event (EvNewSession True) w))"

definition call_ping :: "Ping \<Rightarrow> Session \<Rightarrow> world \<Rightarrow> error option \<times> world" where
  "call_ping ping sess w =
     (case ping (trace w) sess of
        Some e \<Rightarrow> (Some e, record_event (EvPing sess False) w)
      | None \<Rightarrow> (None, record_event (EvPing sess True) w))"

section \<open>The package\<close>

definition filename :: string where
  "filename = ''bastion_credentials_session.json''"

definition storeCredentials :: "env \<Rightarrow> Credentials \<Rightarrow> world \<Rightarrow> error option \<times> Credentials \<times> world" where
  "storeCredentials E creds w =
     (case Get E creds w of
        (Inl err, creds', w1) \<Rightarrow>
          (Some (''couldn't retrieve the credentials value: '' @ err), creds', w1)
      | (Inr val, creds', w1) \<Rightarrow>
          (case json_Marshal E val of
             Inl err \<Rightarrow> (Some (''couldn't marshal credentials value: '' @ err), creds', w1)
           | Inr b \<Rightarrow>
               (case ioutil_WriteFile E filename b w1 of
                  (Some err, w2) \<Rightarrow> (Some (''couldn't write the file: '' @ err), creds', w2)
                | (None, w2) \<Rightarrow> (None, creds', w2))))"

definition retrieveCredentials :: "env \<Rightarrow> world \<Rightarrow> (error + Credentials) \<times> world" where
  "retrieveCredentials E w =
     (case ioutil_ReadFile E filename w of
        (Inl err, w1) \<Rightarrow> (Inl (''couldn't read file '' @ filename @ '': '' @ err), w1)
      | (Inr f, w1) \<Rightarrow>
          (case json_Unmarshal E f of
             Inl err \<Rightarrow> (Inl (''failed to unmarshal file: '' @ err), w1)
           | Inr val \<Rightarrow> (Inr (NewCredentials (StaticProvider val)), w1)))"

definition bastionAccountCreds :: "env \<Rightarrow> string \<Rightarrow> string \<Rightarrow> world \<Rightarrow> (error + Credentials) \<times> world" where
  "bastionAccountCreds E profile assumedRoleARN w =
     (case session_NewSessionWithOptions E profile w of
        (Inl err, w1) \<Rightarrow>
          (Inl (''failed to create new session for bastion account for profile '' @ profile
                @ '': '' @ err), w1)
      | (Inr bastionSession, w1) \<Rightarrow>
          (case storeCredentials E (stscreds_NewCredentials bastionSession assumedRoleARN) w1 of
             (Some err, creds, w2) \<Rightarrow>
               (Inl (''failed to store credentials for profile '' @ profile @ '' and role ''
                     @ assumedRoleARN @ '': '' @ err), w2)
           | (None, creds, w2) \<Rightarrow> (Inr creds, w2)))"

definition purge :: "env \<Rightarrow> world \<Rightarrow> error option \<times> world" where
  "purge E w =
     (case os_Remove E filename w of
        (Some err, w1) \<Rightarrow> (Some (''couldn't delete file '' @ filename @ '': '' @ err), w1)
      | (None, w1) \<Rightarrow> (None, w1))"

text \<open>
  \<^verbatim>\<open>sessionWithConfigWrapper\<close>. The format of the error for a failed ping on the rerun
  has a \<^verbatim>\<open>%v\<close> and no argument, which \<^verbatim>\<open>fmt\<close> prints as \<^verbatim>\<open>%!v(MISSING)\<close>.
  \<^verbatim>\<open>cfg.WithCredentials\<close> sets the field of the caller's config, which is the config
  the rerun receives; \<open>cfg\<close> is a config, not a nil pointer.
\<close>

function sessionWithConfigWrapper ::
  "env \<Rightarrow> string \<Rightarrow> string \<Rightarrow> Ping \<Rightarrow> Config \<Rightarrow> bool \<Rightarrow> world \<Rightarrow> (error + Session) \<times> world" where
  "sessionWithConfigWrapper E profile assumedRoleARN ping cfg rerun w =
     (case (case retrieveCredentials E w of
              (Inl err, w1) \<Rightarrow> bastionAccountCreds E profile assumedRoleARN w1
            | (Inr creds, w1) \<Rightarrow> (Inr creds, w1)) of
        (Inl err, w2) \<Rightarrow> (Inl (''couldn't create bastion account credentials: '' @ err), w2)
      | (Inr creds, w2) \<Rightarrow>
          (case session_NewSession E (WithCredentials cfg creds) w2 of
             (Inl err, w3) \<Rightarrow> (Inl (''couldn't create session: '' @ err), w3)
           | (Inr mainSession, w3) \<Rightarrow>
               (case call_ping ping mainSession w3 of
                  (None, w4) \<Rightarrow> (Inr mainSession, w4)
                | (Some err, w4) \<Rightarrow>
                    (if rerun
                     then (Inl ''failed to ping aws servers with created session: %!v(MISSING)'', w4)
                     else
                       (case purge E w4 of
                          (Some err, w5) \<Rightarrow> (Inl (''couldn't purge the main session: '' @ err), w5)
                        | (None, w5) \<Rightarrow>
                            (case sessionWithConfigWrapper E profile assumedRoleARN ping
                                    (WithCredentials cfg creds) True w5 of
                               (Inl err, w6) \<Rightarrow>
                                 (Inl ''couldn't create main account session after first ping failed'', w6)
                             | (Inr mainSession', w6) \<Rightarrow> (Inr mainSession', w6)))))))"
  by pat_completeness auto
termination
  by (relation "measure (\<lambda>(E, profile, assumedRoleARN, ping, cfg, rerun, w). if rerun then 0 else 1)")
     auto

declare sessionWithConfigWrapper.simps [simp del]

definition SessionWithConfig ::
  "env \<Rightarrow> string \<Rightarrow> string \<Rightarrow> Ping \<Rightarrow> Config \<Rightarrow> world \<Rightarrow> (error + Session) \<times> world" where
  "SessionWithConfig E profile assumedRoleARN ping cfg w =
     sessionWithConfigWrapper E profile assumedRoleARN ping cfg False w"

text \<open>
  The part of \<^verbatim>\<open>sessionWithConfigWrapper\<close> that both passes share: obtain
  credentials, build the session and ping it once. It returns the error of a step before
  the ping, or the credentials, the session and the answer of the ping. It is a device
  for the proofs; \<open>wrapper_attempt\<close> below relates it to the function.
\<close>

definition attempt ::
  "env \<Rightarrow> string \<Rightarrow> string \<Rightarrow> Ping \<Rightarrow> Config \<Rightarrow> world
     \<Rightarrow> (error + Credentials \<times> Session \<times> error option) \<times> world" where
  "attempt E profile assumedRoleARN ping cfg w =
     (case (case retrieveCredentials E w of
              (Inl err, w1) \<Rightarrow> bastionAccountCreds E profile assumedRoleARN w1
            | (Inr creds, w1) \<Rightarrow> (Inr creds, w1)) of
        (Inl err, w2) \<Rightarrow> (Inl (''couldn't create bastion account credentials: '' @ err), w2)
      | (Inr creds, w2) \<Rightarrow>
          (case session_NewSession E (WithCredentials cfg creds) w2 of
             (Inl err, w3) \<Rightarrow> (Inl (''couldn't create session: '' @ err), w3)
           | (Inr mainSession, w3) \<Rightarrow>
               (case call_ping ping mainSession w3 of
                  (pr, w4) \<Rightarrow> (Inr (creds, mainSession, pr), w4))))"

section \<open>Reading the history\<close>

text \<open>The operations performed between two states, oldest first.\<close>

definition events_since :: "world \<Rightarrow> world \<Rightarrow> event list" where
  "events_since w w' = drop (length (trace w)) (trace w')"

fun is_purge :: "event \<Rightarrow> bool" where
  "is_purge (EvRemove name ok) = True"
| "is_purge e = False"

text \<open>A derivation is a call of \<^verbatim>\<open>bastionAccountCreds\<close>, whose first act is to open the bastion session.\<close>

fun is_derive :: "event \<Rightarrow> bool" where
  "is_derive (EvNewSessionWithOptions profile ok) = True"
| "is_derive e = False"

fun is_prompt :: "event \<Rightarrow> bool" where
  "is_prompt (EvMFAPrompt profile roleARN ok) = True"
| "is_prompt e = False"

fun is_ping :: "event \<Rightarrow> bool" where
  "is_ping (EvPing sess ok) = True"
| "is_ping e = False"

fun is_write :: "event \<Rightarrow> bool" where
  "is_write (EvWriteFile name b ok) = True"
| "is_write e = False"

definition count_events :: "(event \<Rightarrow> bool) \<Rightarrow> event list \<Rightarrow> nat" where
  "count_events P evs = length (filter P evs)"

section \<open>Test doubles\<close>

text \<open>
  Concrete collaborators for running the package: two credential values with their
  JSON documents, a codec that knows these two, a file system and an SDK without
  faults (the removal may be made to fail), and a role assumption that hands out the
  second value.
\<close>

definition cred_old :: Value where
  "cred_old = \<lparr>AccessKeyID = ''ASIAOLD'', SecretAccessKey = ''secret0'',
                SessionToken = ''token0'', ProviderName = ''AssumeRoleProvider''\<rparr>"

definition cred_new :: Value where
  "cred_new = \<lparr>AccessKeyID = ''ASIANEW'', SecretAccessKey = ''secret1'',
                SessionToken = ''token1'', ProviderName = ''AssumeRoleProvider''\<rparr>"

definition doc_old :: string where
  \<open>doc_old = ''{"AccessKeyID":"ASIAOLD","SecretAccessKey":"secret0","SessionToken":"token0","ProviderName":"AssumeRoleProvider"}''\<close>

definition doc_new :: string where
  \<open>doc_new = ''{"AccessKeyID":"ASIANEW","SecretAccessKey":"secret1","SessionToken":"token1","ProviderName":"AssumeRoleProvider"}''\<close>

definition test_Marshal :: "Value \<Rightarrow> error + string" where
  "test_Marshal v =
     (if v = cred_old then Inr doc_old
      else if v = cred_new then Inr doc_new
      else Inl ''json: unsupported value'')"

definition test_Unmarshal :: "string \<Rightarrow> error + Value" where
  "test_Unmarshal b =
     (if b = doc_old then Inr cred_old
      else if b = doc_new then Inr cred_new
      else Inl ''invalid character'')"

definition test_env :: "bool \<Rightarrow> env" where
  "test_env remove_fails =
     \<lparr>ReadFile_fault = (\<lambda>h name. None),
      WriteFile_fault = (\<lambda>h name. None),
      Remove_fault = (\<lambda>h name. if remove_fails then Some ''permission denied'' else None),
      json_Marshal = test_Marshal,
      json_Unmarshal = test_Unmarshal,
      NewSessionWithOptions_fault = (\<lambda>h profile. None),
      AssumeRole = (\<lambda>h profile roleARN. Inr cred_new),
      NewSession_fault = (\<lambda>h cfg. None)\<rparr>"

definition ping_fail :: Ping where
  "ping_fail h sess = Some ''AccessDenied''"

definition ping_ok :: Ping where
  "ping_ok h sess = None"

definition test_cfg :: Config where
  "test_cfg = \<lparr>Region = ''eu-west-1'', cfg_Credentials = None\<rparr>"

definition world_empty :: world where
  "world_empty = \<lparr>files = Map.empty, trace = []\<rparr>"

definition world_cached :: world where
  "world_cached = \<lparr>files = [filename \<mapsto> doc_old], trace = []\<rparr>"

definition world_corrupt :: world where
  "world_corrupt = \<lparr>files = [filename \<mapsto> ''not json''], trace = []\<rparr>"

text \<open>A ping that rejects the session built from the old credentials of the file.\<close>

definition ping_expired_old :: Ping where
  "ping_expired_old h sess =
     (if cfg_Credentials (sess_Config sess) = Some (NewCredentials (StaticProvider cred_old))
      then Some ''ExpiredToken'' else None)"

text \<open>The collaborators again, with a role assumption that rejects the MFA code.\<close>

definition test_env_mfa_rejected :: env where
  "test_env_mfa_rejected =
     (test_env False)\<lparr>AssumeRole :=
        (\<lambda>h profile roleARN. Inl ''AccessDenied: MultiFactorAuthentication failed'')\<rparr>"

section \<open>Effects of the operations\<close>

lemma retrieve_Inr:
  assumes "retrieveCredentials E w = (Inr creds, w1)"
  shows "\<exists>b v. files w filename = Some b \<and> json_Unmarshal E b = Inr v
           \<and> creds = NewCredentials (StaticProvider v)
           \<and> w1 = record_event (EvReadFile filename True) w"
  using assms
  by (auto simp: retrieveCredentials_def ioutil_ReadFile_def split: option.splits sum.splits)

lemma retrieve_Inl:
  assumes "retrieveCredentials E w = (Inl e, w1)"
  shows "\<exists>ok. w1 = record_event (EvReadFile filename ok) w \<and> (ok \<longrightarrow> files w filename \<noteq> None)"
  using assms
  by (auto simp: retrieveCredentials_def ioutil_ReadFile_def split: option.splits sum.splits)

lemma retrieve_missing:
  assumes "files w filename = None"
  shows "\<exists>e. retrieveCredentials E w = (Inl e, record_event (EvReadFile filename False) w)"
  using assms
  by (auto simp: retrieveCredentials_def ioutil_ReadFile_def split: option.splits sum.splits)

lemma store_effect:
  assumes "storeCredentials E (stscreds_NewCredentials p r) w = (res, creds, w')"
  shows "(res = None \<and> (\<exists>v b. AssumeRole E (trace w) p r = Inr v \<and> json_Marshal E v = Inr b
              \<and> creds = \<lparr>provider = AssumeRoleProvider p r, retrieved = Some v\<rparr>
              \<and> trace w' = trace w @ [EvMFAPrompt p r True, EvWriteFile filename b True]
              \<and> files w' = (files w)(filename \<mapsto> b)))
       \<or> (res \<noteq> None \<and> (\<exists>b. trace w' = trace w @ [EvMFAPrompt p r False]
              \<or> trace w' = trace w @ [EvMFAPrompt p r True]
              \<or> trace w' = trace w @ [EvMFAPrompt p r True, EvWriteFile filename b False]))"
  using assms
  by (auto simp: storeCredentials_def Get_def stscreds_NewCredentials_def NewCredentials_def
        ioutil_WriteFile_def record_event_def split: option.splits sum.splits prod.splits)

lemma derive_Inr:
  assumes "bastionAccountCreds E p r w = (Inr creds, w')"
  shows "\<exists>v b. AssumeRole E (trace w @ [EvNewSessionWithOptions p True]) p r = Inr v
           \<and> json_Marshal E v = Inr b
           \<and> creds = \<lparr>provider = AssumeRoleProvider p r, retrieved = Some v\<rparr>
           \<and> trace w' = trace w @ [EvNewSessionWithOptions p True, EvMFAPrompt p r True,
                                    EvWriteFile filename b True]
           \<and> files w' = (files w)(filename \<mapsto> b)"
proof -
  from assms obtain w1 res where
    s: "session_NewSessionWithOptions E p w = (Inr p, w1)"
    and st: "storeCredentials E (stscreds_NewCredentials p r) w1 = (res, creds, w')" and "res = None"
    by (auto simp: bastionAccountCreds_def session_NewSessionWithOptions_def
        split: option.splits sum.splits prod.splits)
  from s have w1: "trace w1 = trace w @ [EvNewSessionWithOptions p True]" "files w1 = files w"
    by (auto simp: session_NewSessionWithOptions_def record_event_def split: option.splits)
  from store_effect[OF st] \<open>res = None\<close> w1 show ?thesis by auto
qed

lemma derive_Inl:
  assumes "bastionAccountCreds E p r w = (Inl e, w')"
  shows "\<exists>b. trace w' = trace w @ [EvNewSessionWithOptions p False]
           \<or> trace w' = trace w @ [EvNewSessionWithOptions p True, EvMFAPrompt p r False]
           \<or> trace w' = trace w @ [EvNewSessionWithOptions p True, EvMFAPrompt p r True]
           \<or> trace w' = trace w @ [EvNewSessionWithOptions p True, EvMFAPrompt p r True,
                                    EvWriteFile filename b False]"
proof (cases "session_NewSessionWithOptions E p w")
  case (Pair sr w1)
  show ?thesis
  proof (cases sr)
    case (Inl e1)
    with Pair assms show ?thesis
      by (auto simp: bastionAccountCreds_def session_NewSessionWithOptions_def record_event_def
          split: option.splits)
  next
    case (Inr bs)
    with Pair have bs: "bs = p" and w1: "trace w1 = trace w @ [EvNewSessionWithOptions p True]"
      by (auto simp: session_NewSessionWithOptions_def record_event_def split: option.splits)
    obtain res creds w2 where st: "storeCredentials E (stscreds_NewCredentials p r) w1 = (res, creds, w2)"
      by (cases "storeCredentials E (stscreds_NewCredentials p r) w1") auto
    with Pair Inr bs assms have "res \<noteq> None" "w2 = w'"
      by (auto simp: bastionAccountCreds_def split: option.splits)
    with store_effect[OF st] w1 show ?thesis by auto
  qed
qed

lemma wrapper_attempt:
  "sessionWithConfigWrapper E profile assumedRoleARN ping cfg rerun w =
     (case attempt E profile assumedRoleARN ping cfg w of
        (Inl e, w3) \<Rightarrow> (Inl e, w3)
      | (Inr (creds, mainSession, None), w4) \<Rightarrow> (Inr mainSession, w4)
      | (Inr (creds, mainSession, Some err), w4) \<Rightarrow>
          (if rerun
           then (Inl ''failed to ping aws servers with created session: %!v(MISSING)'', w4)
           else
             (case purge E w4 of
                (Some err, w5) \<Rightarrow> (Inl (''couldn't purge the main session: '' @ err), w5)
              | (None, w5) \<Rightarrow>
                  (case sessionWithConfigWrapper E profile assumedRoleARN ping
                          (WithCredentials cfg creds) True w5 of
                     (Inl err, w6) \<Rightarrow>
                       (Inl ''couldn't create main account session after first ping failed'', w6)
                   | (Inr mainSession', w6) \<Rightarrow> (Inr mainSession', w6)))))"
  by (subst sessionWithConfigWrapper.simps)
     (simp add: attempt_def split: prod.splits sum.splits option.splits)

lemma NewSession_effect:
  assumes "session_NewSession E cfg w = (res, w')"
  shows "(\<exists>e. res = Inl e \<and> w' = record_event (EvNewSession False) w)
       \<or> (res = Inr \<lparr>sess_Config = cfg\<rparr> \<and> w' = record_event (EvNewSession True) w)"
  using assms by (auto simp: session_NewSession_def split: option.splits)

lemma call_ping_eq:
  "call_ping ping s w = (ping (trace w) s, record_event (EvPing s (ping (trace w) s = None)) w)"
  by (simp add: call_ping_def split: option.splits)

lemma call_ping_effect:
  assumes "call_ping ping s w = (pr, w')"
  shows "pr = ping (trace w) s \<and> w' = record_event (EvPing s (pr = None)) w"
  using assms unfolding call_ping_eq by auto

lemma purge_effect:
  assumes "purge E w = (res, w')"
  shows "(res = None \<and> files w' = (files w)(filename := None)
            \<and> trace w' = trace w @ [EvRemove filename True])
       \<or> (\<exists>e. res = Some (''couldn't delete file '' @ filename @ '': '' @ e)
            \<and> files w' = files w \<and> trace w' = trace w @ [EvRemove filename False])"
  using assms
  by (auto simp: purge_def os_Remove_def record_event_def split: option.splits)

text \<open>The two ways in which an attempt reaches its ping.\<close>

lemma attempt_Inr:
  assumes "attempt E p r ping cfg w = (Inr (creds, s, pr), w')"
  shows "s = \<lparr>sess_Config = WithCredentials cfg creds\<rparr> \<and>
    (\<exists>evs. trace w' = trace w @ evs @ [EvNewSession True, EvPing s (pr = None)]
       \<and> pr = ping (trace w @ evs @ [EvNewSession True]) s
       \<and> ((\<exists>b v. evs = [EvReadFile filename True] \<and> files w filename = Some b
               \<and> json_Unmarshal E b = Inr v \<and> creds = NewCredentials (StaticProvider v)
               \<and> \<not> isl (fst (retrieveCredentials E w))
               \<and> files w' = files w)
          \<or> (\<exists>ok b v. evs = [EvReadFile filename ok, EvNewSessionWithOptions p True,
                               EvMFAPrompt p r True, EvWriteFile filename b True]
               \<and> isl (fst (retrieveCredentials E w)) \<and> (ok \<longrightarrow> files w filename \<noteq> None)
               \<and> AssumeRole E (trace w @ [EvReadFile filename ok, EvNewSessionWithOptions p True]) p r = Inr v
               \<and> json_Marshal E v = Inr b
               \<and> creds = \<lparr>provider = AssumeRoleProvider p r, retrieved = Some v\<rparr>
               \<and> files w' = (files w)(filename \<mapsto> b))))"
proof -
  obtain rr w1 where rc: "retrieveCredentials E w = (rr, w1)"
    by (cases "retrieveCredentials E w") auto
  obtain w2 where
    c: "(case rr of Inl err \<Rightarrow> bastionAccountCreds E p r w1 | Inr c \<Rightarrow> (Inr c, w1)) = (Inr creds, w2)"
    and ns: "\<exists>w3. session_NewSession E (WithCredentials cfg creds) w2 = (Inr s, w3)
                 \<and> call_ping ping s w3 = (pr, w')"
    using assms rc
    by (auto simp: attempt_def split: prod.splits sum.splits)
  from ns obtain w3 where ns3: "session_NewSession E (WithCredentials cfg creds) w2 = (Inr s, w3)"
    and cp: "call_ping ping s w3 = (pr, w')" by auto
  from NewSession_effect[OF ns3] have s: "s = \<lparr>sess_Config = WithCredentials cfg creds\<rparr>"
    and w3: "w3 = record_event (EvNewSession True) w2" by auto
  from call_ping_effect[OF cp] have pr: "pr = ping (trace w3) s"
    and w': "w' = record_event (EvPing s (pr = None)) w3" by auto
  show ?thesis
  proof (cases rr)
    case (Inr c0)
    with c have "c0 = creds" "w2 = w1" by auto
    with retrieve_Inr[of E w creds w1] rc Inr s w3 pr w' show ?thesis
      by (auto simp: record_event_def)
  next
    case (Inl e0)
    with c have d: "bastionAccountCreds E p r w1 = (Inr creds, w2)" by simp
    from retrieve_Inl[of E w e0 w1] rc Inl obtain ok where
      w1: "w1 = record_event (EvReadFile filename ok) w" "ok \<longrightarrow> files w filename \<noteq> None"
      by auto
    from derive_Inr[OF d] w1 rc Inl s w3 pr w' show ?thesis
      by (auto simp: record_event_def)
  qed
qed

text \<open>The ways in which an attempt ends before any ping.\<close>

lemma attempt_Inl:
  assumes "attempt E p r ping cfg w = (Inl e, w')"
  shows "\<exists>ok b.
      (isl (fst (retrieveCredentials E w)) \<and> (ok \<longrightarrow> files w filename \<noteq> None) \<and>
        (trace w' = trace w @ [EvReadFile filename ok, EvNewSessionWithOptions p False]
       \<or> trace w' = trace w @ [EvReadFile filename ok, EvNewSessionWithOptions p True,
                                EvMFAPrompt p r False]
       \<or> trace w' = trace w @ [EvReadFile filename ok, EvNewSessionWithOptions p True,
                                EvMFAPrompt p r True]
       \<or> trace w' = trace w @ [EvReadFile filename ok, EvNewSessionWithOptions p True,
                                EvMFAPrompt p r True, EvWriteFile filename b False]
       \<or> trace w' = trace w @ [EvReadFile filename ok, EvNewSessionWithOptions p True,
                                EvMFAPrompt p r True, EvWriteFile filename b True,
                                EvNewSession False]))
    \<or> (\<not> isl (fst (retrieveCredentials E w)) \<and>
         trace w' = trace w @ [EvReadFile filename True, EvNewSession False])"
proof -
  obtain rr w1 where rc: "retrieveCredentials E w = (rr, w1)"
    by (cases "retrieveCredentials E w") auto
  obtain cr w2 where
    c: "(case rr of Inl err \<Rightarrow> bastionAccountCreds E p r w1 | Inr c \<Rightarrow> (Inr c, w1)) = (cr, w2)"
    by (cases "(case rr of Inl err \<Rightarrow> bastionAccountCreds E p r w1 | Inr c \<Rightarrow> (Inr c, w1))") auto
  show ?thesis
  proof (cases cr)
    case (Inl e1)
    with c obtain e0 where rr: "rr = Inl e0" and d: "bastionAccountCreds E p r w1 = (Inl e1, w2)"
      by (cases rr) auto
    from rc rr c Inl assms have "w' = w2" by (simp add: attempt_def)
    moreover from retrieve_Inl[of E w e0 w1] rc rr obtain ok where
      "trace w1 = trace w @ [EvReadFile filename ok]" "ok \<longrightarrow> files w filename \<noteq> None"
      by (auto simp: record_event_def)
    ultimately show ?thesis using derive_Inl[OF d] rc rr by auto
  next
    case (Inr creds)
    obtain sr w3 where ns: "session_NewSession E (WithCredentials cfg creds) w2 = (sr, w3)"
      by (cases "session_NewSession E (WithCredentials cfg creds) w2") auto
    with rc c Inr assms have "isl sr" "w' = w3"
      by (auto simp: attempt_def split: sum.splits prod.splits)
    with NewSession_effect[OF ns] have w3: "trace w' = trace w2 @ [EvNewSession False]"
      by (auto simp: record_event_def)
    show ?thesis
    proof (cases rr)
      case (Inr c0)
      with c \<open>cr = Inr creds\<close> have "c0 = creds" "w2 = w1" by auto
      with retrieve_Inr[of E w creds w1] rc Inr w3 show ?thesis
        by (auto simp: record_event_def)
    next
      case (Inl e0)
      with c \<open>cr = Inr creds\<close> have d: "bastionAccountCreds E p r w1 = (Inr creds, w2)" by simp
      from retrieve_Inl[of E w e0 w1] rc Inl obtain ok where
        "trace w1 = trace w @ [EvReadFile filename ok]" "ok \<longrightarrow> files w filename \<noteq> None"
        by (auto simp: record_event_def)
      with derive_Inr[OF d] rc Inl w3 show ?thesis by auto
    qed
  qed
qed

lemma SessionWithConfig_cases:
  assumes "SessionWithConfig E p r ping cfg w = (res, w')"
  obtains
    (early) e where "attempt E p r ping cfg w = (Inl e, w')" "res = Inl e"
  | (first_ok) creds s where "attempt E p r ping cfg w = (Inr (creds, s, None), w')" "res = Inr s"
  | (purge_failed) creds s err w4 e where
      "attempt E p r ping cfg w = (Inr (creds, s, Some err), w4)"
      "purge E w4 = (Some e, w')" "res = Inl (''couldn't purge the main session: '' @ e)"
  | (rerun_early) creds s err w4 w5 e where
      "attempt E p r ping cfg w = (Inr (creds, s, Some err), w4)"
      "purge E w4 = (None, w5)"
      "attempt E p r ping (WithCredentials cfg creds) w5 = (Inl e, w')"
      "res = Inl ''couldn't create main account session after first ping failed''"
  | (rerun_ok) creds s err w4 w5 creds' s' where
      "attempt E p r ping cfg w = (Inr (creds, s, Some err), w4)"
      "purge E w4 = (None, w5)"
      "attempt E p r ping (WithCredentials cfg creds) w5 = (Inr (creds', s', None), w')"
      "res = Inr s'"
  | (rerun_ping_failed) creds s err w4 w5 creds' s' err' where
      "attempt E p r ping cfg w = (Inr (creds, s, Some err), w4)"
      "purge E w4 = (None, w5)"
      "attempt E p r ping (WithCredentials cfg creds) w5 = (Inr (creds', s', Some err'), w')"
      "res = Inl ''couldn't create main account session after first ping failed''"
proof -
  obtain a w4 where a: "attempt E p r ping cfg w = (a, w4)"
    by (cases "attempt E p r ping cfg w") auto
  show thesis
  proof (cases a)
    case (Inl e)
    with a assms early show thesis
      by (simp add: SessionWithConfig_def wrapper_attempt[of _ _ _ _ _ False])
  next
    case (Inr t)
    obtain creds s pr where t: "t = (creds, s, pr)" by (cases t) auto
    show thesis
    proof (cases pr)
      case None
      with a Inr t assms first_ok show thesis
        by (simp add: SessionWithConfig_def wrapper_attempt[of _ _ _ _ _ False])
    next
      case (Some err)
      obtain pg w5 where pg: "purge E w4 = (pg, w5)" by (cases "purge E w4") auto
      show thesis
      proof (cases pg)
        case (Some e)
        with a Inr t \<open>pr = Some err\<close> pg assms purge_failed show thesis
          by (simp add: SessionWithConfig_def wrapper_attempt[of _ _ _ _ _ False])
      next
        case None
        obtain a' w6 where a': "attempt E p r ping (WithCredentials cfg creds) w5 = (a', w6)"
          by (cases "attempt E p r ping (WithCredentials cfg creds) w5") auto
        from a Inr t \<open>pr = Some err\<close> pg None assms
        have res: "(res, w') =
            (case sessionWithConfigWrapper E p r ping (WithCredentials cfg creds) True w5 of
               (Inl err, w6) \<Rightarrow>
                 (Inl ''couldn't create main account session after first ping failed'', w6)
             | (Inr mainSession', w6) \<Rightarrow> (Inr mainSession', w6))"
          by (simp add: SessionWithConfig_def wrapper_attempt[of _ _ _ _ cfg False])
        show thesis
        proof (cases a')
          case (Inl e)
          with res a' have "w' = w6"
            "res = Inl ''couldn't create main account session after first ping failed''"
            by (simp_all add: wrapper_attempt[of _ _ _ _ _ True])
          with a Inr t \<open>pr = Some err\<close> pg None a' Inl rerun_early show thesis by simp
        next
          case (Inr t')
          obtain creds' s' pr' where t': "t' = (creds', s', pr')" by (cases t') auto
          show thesis
          proof (cases pr')
            case None
            with res a' Inr t' have "w' = w6" "res = Inr s'"
              by (simp_all add: wrapper_attempt[of _ _ _ _ _ True])
            with a \<open>a = Inr t\<close> t \<open>pr = Some err\<close> pg \<open>pg = None\<close> a' Inr t' None rerun_ok
            show thesis by simp
          next
            case (Some err')
            with res a' Inr t' have "w' = w6"
              "res = Inl ''couldn't create main account session after first ping failed''"
              by (simp_all add: wrapper_attempt[of _ _ _ _ _ True])
            with a \<open>a = Inr t\<close> t \<open>pr = Some err\<close> pg \<open>pg = None\<close> a' Inr t' Some
              rerun_ping_failed
            show thesis by simp
          qed
        qed
      qed
    qed
  qed
qed

lemma events_since_append: "trace w' = trace w @ evs \<Longrightarrow> events_since w w' = evs"
  by (simp add: events_since_def)

lemma attempt_ping:
  assumes "attempt E p r ping cfg w = (Inr (creds, s, pr), w')"
  shows "\<exists>h. ping h s = pr"
  using attempt_Inr[OF assms] by blast

section \<open>Running the package on the test doubles\<close>

text \<open>The equations that evaluate a call on concrete collaborators.\<close>

lemmas run_simps = SessionWithConfig_def sessionWithConfigWrapper.simps
  storeCredentials_def retrieveCredentials_def bastionAccountCreds_def purge_def
  record_event_def ioutil_ReadFile_def ioutil_WriteFile_def os_Remove_def
  NewCredentials_def stscreds_NewCredentials_def Get_def session_NewSessionWithOptions_def
  WithCredentials_def session_NewSession_def call_ping_def
  test_env_def test_env_mfa_rejected_def test_Marshal_def test_Unmarshal_def cred_old_def cred_new_def doc_old_def doc_new_def
  ping_fail_def ping_ok_def ping_expired_old_def test_cfg_def world_empty_def world_cached_def world_corrupt_def
  filename_def events_since_def count_events_def

lemma retrieve_missing_isl:
  "files w filename = None \<Longrightarrow> isl (fst (retrieveCredentials E w))"
  using retrieve_missing[of w E] by auto

lemma split_unique:
  assumes "a @ x # b = c @ x # d" "x \<notin> set a" "x \<notin> set b"
  shows "c = a \<and> d = b"
proof -
  have fa: "filter ((=) x) a = []" and fb: "filter ((=) x) b = []"
    using assms(2,3) by (auto simp: filter_empty_conv)
  from assms(1) have "filter ((=) x) (a @ x # b) = filter ((=) x) (c @ x # d)" by simp
  then have "[x] = filter ((=) x) c @ x # filter ((=) x) d"
    by (simp add: fa fb)
  then have "filter ((=) x) c = []" by (cases "filter ((=) x) c") auto
  then have "x \<notin> set c" by (auto simp: filter_empty_conv)
  with assms show ?thesis by (metis append_Cons_eq_iff)
qed

section \<open>Bounded retry\<close>

text \<open>
  C1. If the ping fails whenever it is called, \<open>SessionWithConfig\<close> returns, and what
  it returns is an error; during the call the cache file is removed at most once and
  \<^verbatim>\<open>bastionAccountCreds\<close> is entered at most twice. The function is total: its
  recursion is on the flag \<open>rerun\<close>, which the only recursive call sets.
\<close>

theorem bounded_retry:
  assumes "\<forall>h s. ping h s \<noteq> None"
  shows "\<exists>e w'. SessionWithConfig E p r ping cfg w = (Inl e, w')
           \<and> count_events is_purge (events_since w w') \<le> 1
           \<and> count_events is_derive (events_since w w') \<le> 2"
proof -
  obtain res w' where sw: "SessionWithConfig E p r ping cfg w = (res, w')"
    by (cases "SessionWithConfig E p r ping cfg w") auto
  from sw have "isl res \<and> count_events is_purge (events_since w w') \<le> 1
           \<and> count_events is_derive (events_since w w') \<le> 2"
  proof (cases rule: SessionWithConfig_cases)
    case (early e)
    from attempt_Inl[OF early(1)] early(2) show ?thesis
      by (auto simp: count_events_def dest!: events_since_append)
  next
    case (first_ok creds s)
    from attempt_ping[OF first_ok(1)] assms show ?thesis by auto
  next
    case (purge_failed creds s err w4 e)
    from attempt_Inr[OF purge_failed(1)] purge_effect[OF purge_failed(2)] purge_failed(3)
    show ?thesis
      by (auto simp: count_events_def events_since_def)
  next
    case (rerun_early creds s err w4 w5 e)
    from attempt_Inr[OF rerun_early(1)] purge_effect[OF rerun_early(2)]
      attempt_Inl[OF rerun_early(3)] rerun_early(4)
    show ?thesis
      by (auto simp: count_events_def events_since_def)
  next
    case (rerun_ok creds s err w4 w5 creds' s')
    from attempt_ping[OF rerun_ok(3)] assms show ?thesis by auto
  next
    case (rerun_ping_failed creds s err w4 w5 creds' s' err')
    from attempt_Inr[OF rerun_ping_failed(1)] purge_effect[OF rerun_ping_failed(2)]
      attempt_Inr[OF rerun_ping_failed(3)] rerun_ping_failed(4)
    show ?thesis
      by (auto simp: count_events_def events_since_def)
  qed
  with sw show ?thesis by (cases res) auto
qed

theorem bounded_retry_witness:
  "(\<forall>h s. ping_fail h s \<noteq> None) \<and>
   (\<exists>e w'. SessionWithConfig (test_env False) ''poweruser'' ''arn:aws:iam::1:role/power''
               ping_fail test_cfg world_empty = (Inl e, w')
           \<and> count_events is_purge (events_since world_empty w') \<le> 1
           \<and> count_events is_derive (events_since world_empty w') \<le> 2)"
  using bounded_retry [of ping_fail "test_env False" "''poweruser''"
      "''arn:aws:iam::1:role/power''" test_cfg world_empty]
  by (simp add: ping_fail_def)

section \<open>MFA prompts per call\<close>

text \<open>
  C2, as stated: one call asks for the MFA code at most once. It does not hold. With no
  cache file and a ping that fails, the first pass derives credentials (first prompt),
  the ping fails, the file is removed, and the rerun derives again (second prompt).
\<close>

theorem two_prompts_counterexample:
  "\<not> count_events is_prompt
        (events_since world_empty
           (snd (SessionWithConfig (test_env False) ''poweruser'' ''arn:aws:iam::1:role/power''
                   ping_fail test_cfg world_empty))) \<le> 1"
  by (simp add: run_simps)

text \<open>
  C2, amended. One call of \<open>SessionWithConfig\<close> asks for the MFA code at most twice, and
  twice only when the first reading of the cache failed, a ping failed and the cache
  file was removed; in every other call it asks at most once.
\<close>

theorem mfa_prompts_at_most_two:
  "count_events is_prompt (events_since w (snd (SessionWithConfig E p r ping cfg w))) \<le> 2 \<and>
   (count_events is_prompt (events_since w (snd (SessionWithConfig E p r ping cfg w))) = 2 \<longrightarrow>
      isl (fst (retrieveCredentials E w))
      \<and> (\<exists>s. EvPing s False \<in> set (events_since w (snd (SessionWithConfig E p r ping cfg w))))
      \<and> EvRemove filename True \<in> set (events_since w (snd (SessionWithConfig E p r ping cfg w))))"
proof -
  obtain res w' where sw: "SessionWithConfig E p r ping cfg w = (res, w')"
    by (cases "SessionWithConfig E p r ping cfg w") auto
  from sw have "count_events is_prompt (events_since w w') \<le> 2 \<and>
   (count_events is_prompt (events_since w w') = 2 \<longrightarrow>
      isl (fst (retrieveCredentials E w))
      \<and> (\<exists>s. EvPing s False \<in> set (events_since w w'))
      \<and> EvRemove filename True \<in> set (events_since w w'))"
  proof (cases rule: SessionWithConfig_cases)
    case (early e)
    from attempt_Inl[OF early(1)] show ?thesis
      by (auto simp: count_events_def dest!: events_since_append)
  next
    case (first_ok creds s)
    from attempt_Inr[OF first_ok(1)] show ?thesis
      by (auto simp: count_events_def events_since_def)
  next
    case (purge_failed creds s err w4 e)
    from attempt_Inr[OF purge_failed(1)] purge_effect[OF purge_failed(2)]
    show ?thesis
      by (auto simp: count_events_def events_since_def)
  next
    case (rerun_early creds s err w4 w5 e)
    from attempt_Inr[OF rerun_early(1)] purge_effect[OF rerun_early(2)]
      attempt_Inl[OF rerun_early(3)]
    show ?thesis
      by (auto simp: count_events_def events_since_def)
  next
    case (rerun_ok creds s err w4 w5 creds' s')
    from attempt_Inr[OF rerun_ok(1)] purge_effect[OF rerun_ok(2)] attempt_Inr[OF rerun_ok(3)]
    show ?thesis
      by (auto simp: count_events_def events_since_def)
  next
    case (rerun_ping_failed creds s err w4 w5 creds' s' err')
    from attempt_Inr[OF rerun_ping_failed(1)] purge_effect[OF rerun_ping_failed(2)]
      attempt_Inr[OF rerun_ping_failed(3)]
    show ?thesis
      by (auto simp: count_events_def events_since_def)
  qed
  with sw show ?thesis by simp
qed

theorem mfa_prompts_at_most_two_witness:
  "count_events is_prompt
     (events_since world_empty
        (snd (SessionWithConfig (test_env False) ''poweruser'' ''arn:aws:iam::1:role/power''
                ping_fail test_cfg world_empty))) = 2 \<and>
   isl (fst (retrieveCredentials (test_env False) world_empty)) \<and>
   (\<exists>s. EvPing s False \<in> set
     (events_since world_empty
        (snd (SessionWithConfig (test_env False) ''poweruser'' ''arn:aws:iam::1:role/power''
                ping_fail test_cfg world_empty)))) \<and>
   EvRemove filename True \<in> set
     (events_since world_empty
        (snd (SessionWithConfig (test_env False) ''poweruser'' ''arn:aws:iam::1:role/power''
                ping_fail test_cfg world_empty)))"
proof -
  have two: "count_events is_prompt
     (events_since world_empty
        (snd (SessionWithConfig (test_env False) ''poweruser'' ''arn:aws:iam::1:role/power''
                ping_fail test_cfg world_empty))) = 2"
    by (simp add: run_simps)
  with mfa_prompts_at_most_two [of world_empty "test_env False" "''poweruser''"
      "''arn:aws:iam::1:role/power''" ping_fail test_cfg]
  show ?thesis by blast
qed

section \<open>The retry derives afresh\<close>

text \<open>
  C3. When a call removes the cache file (which it does only after a failed ping), what
  follows the removal starts with a reading of the file that fails and a call of
  \<^verbatim>\<open>bastionAccountCreds\<close>; every session pinged after the removal carries the
  credentials that the role assumption made in that derivation returned, from the
  role provider and not the static provider of the file; and a session that the call
  returns is the one pinged there.
\<close>

theorem retry_uses_fresh_derivation:
  assumes "SessionWithConfig E p r ping cfg w = (res, w')"
    and "events_since w w' = pre @ EvRemove filename True # post"
  shows "(\<exists>ok rest. post = EvReadFile filename False # EvNewSessionWithOptions p ok # rest) \<and>
         (\<forall>s ok. EvPing s ok \<in> set post \<longrightarrow>
            (\<exists>v. AssumeRole E (trace w @ pre @ [EvRemove filename True, EvReadFile filename False,
                                    EvNewSessionWithOptions p True]) p r = Inr v
                \<and> cfg_Credentials (sess_Config s)
                    = Some \<lparr>provider = AssumeRoleProvider p r, retrieved = Some v\<rparr>)) \<and>
         (\<forall>s. res = Inr s \<longrightarrow> EvPing s True \<in> set post)"
  using assms(1)
proof (cases rule: SessionWithConfig_cases)
  case (early e)
  from attempt_Inl[OF early(1)] assms(2) show ?thesis
    by (auto dest!: events_since_append simp: append_eq_append_conv2 append_eq_Cons_conv Cons_eq_append_conv)
next
  case (first_ok creds s)
  from attempt_Inr[OF first_ok(1)] assms(2) show ?thesis
    by (auto simp: events_since_def append_eq_append_conv2 append_eq_Cons_conv Cons_eq_append_conv)
next
  case (purge_failed creds s err w4 e)
  from attempt_Inr[OF purge_failed(1)] purge_effect[OF purge_failed(2)] assms(2)
  show ?thesis
    by (auto simp: events_since_def append_eq_append_conv2 append_eq_Cons_conv Cons_eq_append_conv)
next
  case (rerun_early creds s err w4 w5 e)
  from purge_effect[OF rerun_early(2)]
  have f5: "files w5 filename = None" and t5: "trace w5 = trace w4 @ [EvRemove filename True]"
    by auto
  from attempt_Inr[OF rerun_early(1)] obtain evs1 where
    t4: "trace w4 = trace w @ evs1 @ [EvNewSession True, EvPing s False]"
    and n1: "EvRemove filename True \<notin> set evs1" by auto
  from attempt_Inl[OF rerun_early(3)] retrieve_missing_isl[OF f5, of E] f5 obtain evs2 ok2 rest2 where
    t': "trace w' = trace w5 @ evs2" and e2: "evs2 = EvReadFile filename False # EvNewSessionWithOptions p ok2 # rest2"
    and n2: "\<forall>s ok. EvPing s ok \<notin> set rest2" "EvRemove filename True \<notin> set rest2"
    by auto
  from t4 t5 t' have "events_since w w' = (evs1 @ [EvNewSession True, EvPing s False]) @ EvRemove filename True # evs2"
    by (simp add: events_since_def)
  with assms(2) have "(evs1 @ [EvNewSession True, EvPing s False]) @ EvRemove filename True # evs2
      = pre @ EvRemove filename True # post" by simp
  from split_unique[OF this] n1 n2 e2 have "post = evs2" by auto
  with e2 n2 rerun_early(4) show ?thesis by auto
next
  case (rerun_ok creds s err w4 w5 creds' s')
  from purge_effect[OF rerun_ok(2)]
  have f5: "files w5 filename = None" and t5: "trace w5 = trace w4 @ [EvRemove filename True]"
    by auto
  from attempt_Inr[OF rerun_ok(1)] obtain evs1 where
    t4: "trace w4 = trace w @ evs1 @ [EvNewSession True, EvPing s False]"
    and n1: "EvRemove filename True \<notin> set evs1" by auto
  from attempt_Inr[OF rerun_ok(3)] f5 obtain b v where
    t': "trace w' = trace w5 @ [EvReadFile filename False, EvNewSessionWithOptions p True,
           EvMFAPrompt p r True, EvWriteFile filename b True, EvNewSession True, EvPing s' True]"
    and v: "AssumeRole E (trace w5 @ [EvReadFile filename False, EvNewSessionWithOptions p True]) p r = Inr v"
    and c': "creds' = \<lparr>provider = AssumeRoleProvider p r, retrieved = Some v\<rparr>"
    and s': "s' = \<lparr>sess_Config = WithCredentials (WithCredentials cfg creds) creds'\<rparr>"
    by auto
  let ?evs2 = "[EvReadFile filename False, EvNewSessionWithOptions p True,
           EvMFAPrompt p r True, EvWriteFile filename b True, EvNewSession True, EvPing s' True]"
  from t4 t5 t' have "events_since w w' = (evs1 @ [EvNewSession True, EvPing s False]) @ EvRemove filename True # ?evs2"
    by (simp add: events_since_def)
  with assms(2) have "(evs1 @ [EvNewSession True, EvPing s False]) @ EvRemove filename True # ?evs2
      = pre @ EvRemove filename True # post" by simp
  from split_unique[OF this] n1 have pp: "post = ?evs2" "pre = evs1 @ [EvNewSession True, EvPing s False]" by auto
  with v c' s' t4 t5 rerun_ok(4) show ?thesis by (auto simp: WithCredentials_def)
next
  case (rerun_ping_failed creds s err w4 w5 creds' s' err')
  from purge_effect[OF rerun_ping_failed(2)]
  have f5: "files w5 filename = None" and t5: "trace w5 = trace w4 @ [EvRemove filename True]"
    by auto
  from attempt_Inr[OF rerun_ping_failed(1)] obtain evs1 where
    t4: "trace w4 = trace w @ evs1 @ [EvNewSession True, EvPing s False]"
    and n1: "EvRemove filename True \<notin> set evs1" by auto
  from attempt_Inr[OF rerun_ping_failed(3)] f5 obtain b v where
    t': "trace w' = trace w5 @ [EvReadFile filename False, EvNewSessionWithOptions p True,
           EvMFAPrompt p r True, EvWriteFile filename b True, EvNewSession True, EvPing s' False]"
    and v: "AssumeRole E (trace w5 @ [EvReadFile filename False, EvNewSessionWithOptions p True]) p r = Inr v"
    and c': "creds' = \<lparr>provider = AssumeRoleProvider p r, retrieved = Some v\<rparr>"
    and s': "s' = \<lparr>sess_Config = WithCredentials (WithCredentials cfg creds) creds'\<rparr>"
    by auto
  let ?evs2 = "[EvReadFile filename False, EvNewSessionWithOptions p True,
           EvMFAPrompt p r True, EvWriteFile filename b True, EvNewSession True, EvPing s' False]"
  from t4 t5 t' have "events_since w w' = (evs1 @ [EvNewSession True, EvPing s False]) @ EvRemove filename True # ?evs2"
    by (simp add: events_since_def)
  with assms(2) have "(evs1 @ [EvNewSession True, EvPing s False]) @ EvRemove filename True # ?evs2
      = pre @ EvRemove filename True # post" by simp
  from split_unique[OF this] n1 have pp: "post = ?evs2" "pre = evs1 @ [EvNewSession True, EvPing s False]" by auto
  with v c' s' t4 t5 rerun_ping_failed(4) show ?thesis by (auto simp: WithCredentials_def)
qed

theorem retry_uses_fresh_derivation_witness:
  "events_since world_cached
     (snd (SessionWithConfig (test_env False) ''poweruser'' ''arn:aws:iam::1:role/power''
             ping_expired_old test_cfg world_cached))
   = [EvReadFile filename True, EvNewSession True,
      EvPing \<lparr>sess_Config = WithCredentials test_cfg (NewCredentials (StaticProvider cred_old))\<rparr>
        False]
     @ EvRemove filename True
     # [EvReadFile filename False, EvNewSessionWithOptions ''poweruser'' True,
        EvMFAPrompt ''poweruser'' ''arn:aws:iam::1:role/power'' True,
        EvWriteFile filename doc_new True, EvNewSession True,
        EvPing \<lparr>sess_Config = WithCredentials test_cfg
                   \<lparr>provider = AssumeRoleProvider ''poweruser'' ''arn:aws:iam::1:role/power'',
                      retrieved = Some cred_new\<rparr>\<rparr> True] \<and>
   (\<exists>v. cfg_Credentials (sess_Config
            \<lparr>sess_Config = WithCredentials test_cfg
               \<lparr>provider = AssumeRoleProvider ''poweruser'' ''arn:aws:iam::1:role/power'',
                  retrieved = Some cred_new\<rparr>\<rparr>)
        = Some \<lparr>provider = AssumeRoleProvider ''poweruser'' ''arn:aws:iam::1:role/power'',
                retrieved = Some v\<rparr>)"
proof -
  let ?run = "SessionWithConfig (test_env False) ''poweruser'' ''arn:aws:iam::1:role/power''
                ping_expired_old test_cfg world_cached"
  let ?new = "\<lparr>sess_Config = WithCredentials test_cfg
                   \<lparr>provider = AssumeRoleProvider ''poweruser'' ''arn:aws:iam::1:role/power'',
                      retrieved = Some cred_new\<rparr>\<rparr>"
  let ?post = "[EvReadFile filename False, EvNewSessionWithOptions ''poweruser'' True,
        EvMFAPrompt ''poweruser'' ''arn:aws:iam::1:role/power'' True,
        EvWriteFile filename doc_new True, EvNewSession True, EvPing ?new True]"
  have r: "?run = (fst ?run, snd ?run)" by simp
  have ev: "events_since world_cached (snd ?run)
   = [EvReadFile filename True, EvNewSession True,
      EvPing \<lparr>sess_Config = WithCredentials test_cfg (NewCredentials (StaticProvider cred_old))\<rparr>
        False]
     @ EvRemove filename True # ?post"
    by (simp add: run_simps)
  have "EvPing ?new True \<in> set ?post" by simp
  with retry_uses_fresh_derivation [OF r ev] ev show ?thesis by blast
qed

section \<open>The cache file\<close>

lemma store_ok:
  assumes "storeCredentials E creds w = (None, creds', w1)"
  shows "\<exists>v b. retrieved creds' = Some v \<and> json_Marshal E v = Inr b
           \<and> files w1 filename = Some b
           \<and> (\<exists>evs. trace w1 = trace w @ evs @ [EvWriteFile filename b True])"
  using assms
  by (auto simp: storeCredentials_def Get_def ioutil_WriteFile_def record_event_def Let_def
      split: option.splits sum.splits prod.splits Provider.splits if_splits)

text \<open>
  C4. A credential value is valid for the cache when the JSON codec gives it back:
  unmarshalling what marshalling produced returns the value. When \<open>storeCredentials\<close>
  succeeds on credentials that hold such a value \<open>c\<close>, and the file can be read, then
  \<open>retrieveCredentials\<close> succeeds and returns static credentials around a value equal
  to \<open>c\<close>, hence equal in the access key, the secret key and the session token.
\<close>

theorem cache_round_trip:
  assumes "storeCredentials E creds w = (None, creds', w1)"
    and "retrieved creds' = Some c"
    and "\<forall>b. json_Marshal E c = Inr b \<longrightarrow> json_Unmarshal E b = Inr c"
    and "ReadFile_fault E (trace w1) filename = None"
  shows "\<exists>w2. retrieveCredentials E w1 = (Inr (NewCredentials (StaticProvider c)), w2)
           \<and> files w2 = files w1"
proof -
  from store_ok[OF assms(1)] assms(2) obtain b where
    "json_Marshal E c = Inr b" "files w1 filename = Some b" by auto
  with assms(3,4) show ?thesis
    by (auto simp: retrieveCredentials_def ioutil_ReadFile_def record_event_def)
qed

theorem cache_round_trip_witness:
  "fst (storeCredentials (test_env False)
          (stscreds_NewCredentials ''poweruser'' ''arn:aws:iam::1:role/power'') world_empty) = None \<and>
   (\<exists>w2. retrieveCredentials (test_env False)
            (snd (snd (storeCredentials (test_env False)
               (stscreds_NewCredentials ''poweruser'' ''arn:aws:iam::1:role/power'') world_empty)))
          = (Inr (NewCredentials (StaticProvider cred_new)), w2))"
proof -
  let ?st = "storeCredentials (test_env False)
          (stscreds_NewCredentials ''poweruser'' ''arn:aws:iam::1:role/power'') world_empty"
  have s: "?st = (None, fst (snd ?st), snd (snd ?st))" by (simp add: run_simps)
  have v: "retrieved (fst (snd ?st)) = Some cred_new" by (simp add: run_simps)
  have codec: "\<forall>b. json_Marshal (test_env False) cred_new = Inr b
                 \<longrightarrow> json_Unmarshal (test_env False) b = Inr cred_new"
    by (simp add: run_simps)
  have rd: "ReadFile_fault (test_env False) (trace (snd (snd ?st))) filename = None"
    by (simp add: test_env_def)
  have f: "fst ?st = None" by (simp add: run_simps)
  from cache_round_trip [OF s v codec rd] f show ?thesis by blast
qed

section \<open>A failed load leads to one derivation\<close>

text \<open>
  C5. When the first \<open>retrieveCredentials\<close> of a call fails, whatever the reason (the
  file is absent, cannot be read, or does not parse), the next thing the call does is
  to enter \<^verbatim>\<open>bastionAccountCreds\<close>, and among the operations that come before the
  first ping there is exactly one derivation.
\<close>

theorem cache_miss_derives_once_before_ping:
  assumes "isl (fst (retrieveCredentials E w))"
  shows "\<exists>ok ok' rest.
           events_since w (snd (SessionWithConfig E p r ping cfg w))
             = EvReadFile filename ok # EvNewSessionWithOptions p ok' # rest
         \<and> count_events is_derive
             (takeWhile (\<lambda>e. \<not> is_ping e)
                (events_since w (snd (SessionWithConfig E p r ping cfg w)))) = 1"
proof -
  obtain res w' where sw: "SessionWithConfig E p r ping cfg w = (res, w')"
    by (cases "SessionWithConfig E p r ping cfg w") auto
  from sw have "\<exists>ok ok' rest.
           events_since w w' = EvReadFile filename ok # EvNewSessionWithOptions p ok' # rest
         \<and> count_events is_derive (takeWhile (\<lambda>e. \<not> is_ping e) (events_since w w')) = 1"
  proof (cases rule: SessionWithConfig_cases)
    case (early e)
    from attempt_Inl[OF early(1)] assms show ?thesis
      by (auto simp: count_events_def dest!: events_since_append)
  next
    case (first_ok creds s)
    from attempt_Inr[OF first_ok(1)] assms show ?thesis
      by (auto simp: count_events_def events_since_def)
  next
    case (purge_failed creds s err w4 e)
    from attempt_Inr[OF purge_failed(1)] purge_effect[OF purge_failed(2)] assms
    show ?thesis
      by (auto simp: count_events_def events_since_def)
  next
    case (rerun_early creds s err w4 w5 e)
    from attempt_Inr[OF rerun_early(1)] purge_effect[OF rerun_early(2)]
      attempt_Inl[OF rerun_early(3)] assms
    show ?thesis
      by (auto simp: count_events_def events_since_def)
  next
    case (rerun_ok creds s err w4 w5 creds' s')
    from attempt_Inr[OF rerun_ok(1)] purge_effect[OF rerun_ok(2)] attempt_Inr[OF rerun_ok(3)] assms
    show ?thesis
      by (auto simp: count_events_def events_since_def)
  next
    case (rerun_ping_failed creds s err w4 w5 creds' s' err')
    from attempt_Inr[OF rerun_ping_failed(1)] purge_effect[OF rerun_ping_failed(2)]
      attempt_Inr[OF rerun_ping_failed(3)] assms
    show ?thesis
      by (auto simp: count_events_def events_since_def)
  qed
  with sw show ?thesis by simp
qed

theorem cache_miss_derives_once_before_ping_witness:
  "isl (fst (retrieveCredentials (test_env False) world_empty)) \<and>
   isl (fst (retrieveCredentials (test_env False) world_corrupt)) \<and>
   (\<exists>ok ok' rest.
       events_since world_empty
         (snd (SessionWithConfig (test_env False) ''poweruser'' ''arn:aws:iam::1:role/power''
                 ping_ok test_cfg world_empty))
         = EvReadFile filename ok # EvNewSessionWithOptions ''poweruser'' ok' # rest
     \<and> count_events is_derive
         (takeWhile (\<lambda>e. \<not> is_ping e)
            (events_since world_empty
               (snd (SessionWithConfig (test_env False) ''poweruser'' ''arn:aws:iam::1:role/power''
                       ping_ok test_cfg world_empty)))) = 1) \<and>
   (\<exists>ok ok' rest.
       events_since world_corrupt
         (snd (SessionWithConfig (test_env False) ''poweruser'' ''arn:aws:iam::1:role/power''
                 ping_ok test_cfg world_corrupt))
         = EvReadFile filename ok # EvNewSessionWithOptions ''poweruser'' ok' # rest
     \<and> count_events is_derive
         (takeWhile (\<lambda>e. \<not> is_ping e)
            (events_since world_corrupt
               (snd (SessionWithConfig (test_env False) ''poweruser'' ''arn:aws:iam::1:role/power''
                       ping_ok test_cfg world_corrupt)))) = 1)"
proof -
  have missing: "isl (fst (retrieveCredentials (test_env False) world_empty))"
    by (simp add: run_simps)
  have corrupt: "isl (fst (retrieveCredentials (test_env False) world_corrupt))"
    by (simp add: run_simps)
  from cache_miss_derives_once_before_ping [OF missing]
    cache_miss_derives_once_before_ping [OF corrupt] missing corrupt
  show ?thesis by blast
qed

section \<open>The happy path\<close>

text \<open>
  C6. When the cache file holds a document that parses to a value \<open>v\<close>, the session
  built from it can be created and the ping accepts it, the call returns that session,
  built from the static credentials around \<open>v\<close>; it performs a read, a session
  creation and a ping and nothing else (no derivation, no MFA prompt, no write, no
  removal), and the files are as they were.
\<close>

theorem happy_path_uses_cache:
  assumes "ReadFile_fault E (trace w) filename = None"
    and "files w filename = Some b"
    and "json_Unmarshal E b = Inr v"
    and "NewSession_fault E (trace w @ [EvReadFile filename True])
           (WithCredentials cfg (NewCredentials (StaticProvider v))) = None"
    and "ping (trace w @ [EvReadFile filename True, EvNewSession True])
           \<lparr>sess_Config = WithCredentials cfg (NewCredentials (StaticProvider v))\<rparr> = None"
  shows "\<exists>w'. SessionWithConfig E p r ping cfg w
             = (Inr \<lparr>sess_Config = WithCredentials cfg (NewCredentials (StaticProvider v))\<rparr>, w')
           \<and> files w' = files w
           \<and> events_since w w'
               = [EvReadFile filename True, EvNewSession True,
                  EvPing \<lparr>sess_Config = WithCredentials cfg (NewCredentials (StaticProvider v))\<rparr> True]
           \<and> count_events is_derive (events_since w w') = 0
           \<and> count_events is_prompt (events_since w w') = 0
           \<and> count_events is_write (events_since w w') = 0
           \<and> count_events is_purge (events_since w w') = 0"
proof -
  let ?s = "\<lparr>sess_Config = WithCredentials cfg (NewCredentials (StaticProvider v))\<rparr>"
  from assms(1-3) have rc: "retrieveCredentials E w
      = (Inr (NewCredentials (StaticProvider v)), record_event (EvReadFile filename True) w)"
    by (simp add: retrieveCredentials_def ioutil_ReadFile_def)
  from assms(4) have ns: "session_NewSession E (WithCredentials cfg (NewCredentials (StaticProvider v)))
        (record_event (EvReadFile filename True) w)
      = (Inr ?s, record_event (EvNewSession True) (record_event (EvReadFile filename True) w))"
    by (simp add: session_NewSession_def record_event_def)
  from assms(5) have pg: "call_ping ping ?s
        (record_event (EvNewSession True) (record_event (EvReadFile filename True) w))
      = (None, record_event (EvPing ?s True)
           (record_event (EvNewSession True) (record_event (EvReadFile filename True) w)))"
    by (simp add: call_ping_def record_event_def)
  from rc ns pg have "SessionWithConfig E p r ping cfg w
      = (Inr ?s, record_event (EvPing ?s True)
           (record_event (EvNewSession True) (record_event (EvReadFile filename True) w)))"
    by (simp add: SessionWithConfig_def wrapper_attempt attempt_def)
  then show ?thesis
    by (simp add: record_event_def events_since_def count_events_def)
qed

theorem happy_path_uses_cache_witness:
  "\<exists>w'. SessionWithConfig (test_env False) ''poweruser'' ''arn:aws:iam::1:role/power''
           ping_ok test_cfg world_cached
         = (Inr \<lparr>sess_Config = WithCredentials test_cfg (NewCredentials (StaticProvider cred_old))\<rparr>, w')
       \<and> files w' = files world_cached
       \<and> count_events is_derive (events_since world_cached w') = 0
       \<and> count_events is_prompt (events_since world_cached w') = 0"
proof -
  have a: "ReadFile_fault (test_env False) (trace world_cached) filename = None"
    by (simp add: test_env_def)
  have b: "files world_cached filename = Some doc_old" by (simp add: world_cached_def)
  have c: "json_Unmarshal (test_env False) doc_old = Inr cred_old"
    by (simp add: test_env_def test_Unmarshal_def)
  have d: "NewSession_fault (test_env False) (trace world_cached @ [EvReadFile filename True])
           (WithCredentials test_cfg (NewCredentials (StaticProvider cred_old))) = None"
    by (simp add: test_env_def)
  have e: "ping_ok (trace world_cached @ [EvReadFile filename True, EvNewSession True])
           \<lparr>sess_Config = WithCredentials test_cfg (NewCredentials (StaticProvider cred_old))\<rparr> = None"
    by (simp add: ping_ok_def)
  from happy_path_uses_cache [where ping = ping_ok and p = "''poweruser''"
      and r = "''arn:aws:iam::1:role/power''", OF a b c d e]
  show ?thesis by blast
qed

section \<open>A failed purge\<close>

text \<open>
  C7. When a call tries to remove the cache file and the removal fails, the call returns
  an error that carries the error of the removal, and the failed removal is the last
  thing it does: it comes right after the failed ping of the first pass, and no
  reading, derivation or ping follows it.
\<close>

theorem purge_failure_is_fatal:
  assumes "SessionWithConfig E p r ping cfg w = (res, w')"
    and "EvRemove filename False \<in> set (events_since w w')"
  shows "\<exists>e pre s.
           res = Inl (''couldn't purge the main session: couldn't delete file '' @ filename
                      @ '': '' @ e)
         \<and> events_since w w' = pre @ [EvPing s False, EvRemove filename False]
         \<and> count_events is_purge pre = 0 \<and> count_events is_ping pre = 0
         \<and> count_events is_derive pre \<le> 1"
  using assms(1)
proof (cases rule: SessionWithConfig_cases)
  case (early e)
  from attempt_Inl[OF early(1)] assms(2) show ?thesis
    by (auto dest!: events_since_append)
next
  case (first_ok creds s)
  from attempt_Inr[OF first_ok(1)] assms(2) show ?thesis
    by (auto simp: events_since_def)
next
  case (purge_failed creds s err w4 e)
  from attempt_Inr[OF purge_failed(1)] purge_effect[OF purge_failed(2)] purge_failed(3)
  show ?thesis
    by (auto simp: events_since_def count_events_def)
next
  case (rerun_early creds s err w4 w5 e)
  from attempt_Inr[OF rerun_early(1)] purge_effect[OF rerun_early(2)]
    attempt_Inl[OF rerun_early(3)] assms(2)
  show ?thesis
    by (auto simp: events_since_def)
next
  case (rerun_ok creds s err w4 w5 creds' s')
  from attempt_Inr[OF rerun_ok(1)] purge_effect[OF rerun_ok(2)] attempt_Inr[OF rerun_ok(3)] assms(2)
  show ?thesis
    by (auto simp: events_since_def)
next
  case (rerun_ping_failed creds s err w4 w5 creds' s' err')
  from attempt_Inr[OF rerun_ping_failed(1)] purge_effect[OF rerun_ping_failed(2)]
    attempt_Inr[OF rerun_ping_failed(3)] assms(2)
  show ?thesis
    by (auto simp: events_since_def)
qed

theorem purge_failure_is_fatal_witness:
  "EvRemove filename False \<in> set
     (events_since world_cached
        (snd (SessionWithConfig (test_env True) ''poweruser'' ''arn:aws:iam::1:role/power''
                ping_fail test_cfg world_cached))) \<and>
   (\<exists>e pre s.
      fst (SessionWithConfig (test_env True) ''poweruser'' ''arn:aws:iam::1:role/power''
             ping_fail test_cfg world_cached)
        = Inl (''couldn't purge the main session: couldn't delete file '' @ filename @ '': '' @ e)
    \<and> events_since world_cached
        (snd (SessionWithConfig (test_env True) ''poweruser'' ''arn:aws:iam::1:role/power''
                ping_fail test_cfg world_cached))
        = pre @ [EvPing s False, EvRemove filename False])"
proof -
  let ?run = "SessionWithConfig (test_env True) ''poweruser'' ''arn:aws:iam::1:role/power''
                ping_fail test_cfg world_cached"
  have r: "?run = (fst ?run, snd ?run)" by simp
  have m: "EvRemove filename False \<in> set (events_since world_cached (snd ?run))"
    by (simp add: run_simps)
  from purge_failure_is_fatal [OF r m] m show ?thesis by blast
qed

section \<open>Derived credentials are stored before they are returned\<close>

text \<open>
  C8. When \<^verbatim>\<open>bastionAccountCreds\<close> returns credentials, they hold a value whose JSON
  document is the content of the cache file, and writing it was the last thing done
  before returning. When the store step fails, \<^verbatim>\<open>bastionAccountCreds\<close> returns an
  error that carries the error of the store, and no credentials.
\<close>

theorem derived_credentials_are_persisted:
  "(\<forall>creds w'. bastionAccountCreds E p r w = (Inr creds, w') \<longrightarrow>
      (\<exists>v b. retrieved creds = Some v \<and> json_Marshal E v = Inr b
           \<and> files w' filename = Some b
           \<and> last (trace w') = EvWriteFile filename b True)) \<and>
   (\<forall>bastionSession w1 e creds w2.
      session_NewSessionWithOptions E p w = (Inr bastionSession, w1)
      \<and> storeCredentials E (stscreds_NewCredentials bastionSession r) w1 = (Some e, creds, w2) \<longrightarrow>
      bastionAccountCreds E p r w
        = (Inl (''failed to store credentials for profile '' @ p @ '' and role '' @ r
                @ '': '' @ e), w2))"
proof (intro conjI allI impI)
  fix creds w'
  assume "bastionAccountCreds E p r w = (Inr creds, w')"
  from derive_Inr[OF this] show "\<exists>v b. retrieved creds = Some v \<and> json_Marshal E v = Inr b
           \<and> files w' filename = Some b \<and> last (trace w') = EvWriteFile filename b True"
    by auto
next
  fix bastionSession w1 e creds w2
  assume "session_NewSessionWithOptions E p w = (Inr bastionSession, w1)
      \<and> storeCredentials E (stscreds_NewCredentials bastionSession r) w1 = (Some e, creds, w2)"
  then show "bastionAccountCreds E p r w
        = (Inl (''failed to store credentials for profile '' @ p @ '' and role '' @ r
                @ '': '' @ e), w2)"
    by (simp add: bastionAccountCreds_def)
qed

theorem derived_credentials_are_persisted_witness:
  "(\<exists>creds w' v b.
      bastionAccountCreds (test_env False) ''poweruser'' ''arn:aws:iam::1:role/power'' world_empty
        = (Inr creds, w')
    \<and> retrieved creds = Some v \<and> json_Marshal (test_env False) v = Inr b
    \<and> files w' filename = Some b) \<and>
   (\<exists>w1 e creds w2.
      session_NewSessionWithOptions test_env_mfa_rejected ''poweruser'' world_empty
        = (Inr ''poweruser'', w1)
    \<and> storeCredentials test_env_mfa_rejected
         (stscreds_NewCredentials ''poweruser'' ''arn:aws:iam::1:role/power'') w1 = (Some e, creds, w2)
    \<and> bastionAccountCreds test_env_mfa_rejected ''poweruser'' ''arn:aws:iam::1:role/power'' world_empty
        = (Inl (''failed to store credentials for profile '' @ ''poweruser'' @ '' and role ''
                @ ''arn:aws:iam::1:role/power'' @ '': '' @ e), w2))"
proof -
  let ?d = "bastionAccountCreds (test_env False) ''poweruser'' ''arn:aws:iam::1:role/power'' world_empty"
  let ?n = "session_NewSessionWithOptions test_env_mfa_rejected ''poweruser'' world_empty"
  let ?s = "storeCredentials test_env_mfa_rejected
         (stscreds_NewCredentials ''poweruser'' ''arn:aws:iam::1:role/power'') (snd ?n)"
  have ok: "?d = (Inr (projr (fst ?d)), snd ?d)" by (simp add: run_simps)
  have n: "?n = (Inr ''poweruser'', snd ?n)" by (simp add: run_simps)
  have st: "?s = (Some (the (fst ?s)), fst (snd ?s), snd (snd ?s))" by (simp add: run_simps)
  note inst = derived_credentials_are_persisted [of "test_env False" "''poweruser''"
      "''arn:aws:iam::1:role/power''" world_empty]
    derived_credentials_are_persisted [of test_env_mfa_rejected "''poweruser''"
      "''arn:aws:iam::1:role/power''" world_empty]
  from inst(1) ok have a: "\<exists>creds w' v b. ?d = (Inr creds, w')
    \<and> retrieved creds = Some v \<and> json_Marshal (test_env False) v = Inr b
    \<and> files w' filename = Some b" by blast
  from inst(2) n st have "bastionAccountCreds test_env_mfa_rejected ''poweruser''
        ''arn:aws:iam::1:role/power'' world_empty
        = (Inl (''failed to store credentials for profile '' @ ''poweruser'' @ '' and role ''
                @ ''arn:aws:iam::1:role/power'' @ '': '' @ the (fst ?s)), snd (snd ?s))" by blast
  with n st have b: "\<exists>w1 e creds w2. ?n = (Inr ''poweruser'', w1)
    \<and> storeCredentials test_env_mfa_rejected
         (stscreds_NewCredentials ''poweruser'' ''arn:aws:iam::1:role/power'') w1 = (Some e, creds, w2)
    \<and> bastionAccountCreds test_env_mfa_rejected ''poweruser'' ''arn:aws:iam::1:role/power'' world_empty
        = (Inl (''failed to store credentials for profile '' @ ''poweruser'' @ '' and role ''
                @ ''arn:aws:iam::1:role/power'' @ '': '' @ e), w2)" by blast
  from a b show ?thesis by blast
qed

section \<open>What a fatal rerun leaves behind\<close>

text \<open>
  C10. When a call pings twice and returns an error, the error is the one of the failed
  rerun, the call ends with the write of the cache file, the creation of the session
  and the failed ping, and the cache file still holds the document of the value that
  the session just rejected carries: it was stored by the derivation of the rerun and
  is neither removed nor restored.
\<close>

theorem fatal_rerun_leaves_fresh_credentials:
  assumes "SessionWithConfig E p r ping cfg w = (res, w')"
    and "count_events is_ping (events_since w w') = 2"
    and "isl res"
  shows "res = Inl ''couldn't create main account session after first ping failed'' \<and>
         (\<exists>s v b pre.
            events_since w w' = pre @ [EvWriteFile filename b True, EvNewSession True, EvPing s False]
          \<and> cfg_Credentials (sess_Config s)
              = Some \<lparr>provider = AssumeRoleProvider p r, retrieved = Some v\<rparr>
          \<and> json_Marshal E v = Inr b
          \<and> files w' filename = Some b)"
  using assms(1)
proof (cases rule: SessionWithConfig_cases)
  case (early e)
  from attempt_Inl[OF early(1)] assms(2) show ?thesis
    by (auto simp: count_events_def dest!: events_since_append)
next
  case (first_ok creds s)
  from attempt_Inr[OF first_ok(1)] assms(2) show ?thesis
    by (auto simp: events_since_def count_events_def)
next
  case (purge_failed creds s err w4 e)
  from attempt_Inr[OF purge_failed(1)] purge_effect[OF purge_failed(2)] assms(2)
  show ?thesis
    by (auto simp: events_since_def count_events_def)
next
  case (rerun_early creds s err w4 w5 e)
  from attempt_Inr[OF rerun_early(1)] purge_effect[OF rerun_early(2)]
    attempt_Inl[OF rerun_early(3)] assms(2)
  show ?thesis
    by (auto simp: events_since_def count_events_def)
next
  case (rerun_ok creds s err w4 w5 creds' s')
  with assms(3) show ?thesis by simp
next
  case (rerun_ping_failed creds s err w4 w5 creds' s' err')
  from purge_effect[OF rerun_ping_failed(2)]
  have f5: "files w5 filename = None" and t5: "trace w5 = trace w4 @ [EvRemove filename True]"
    by auto
  from attempt_Inr[OF rerun_ping_failed(1)] obtain evs1 where
    t4: "trace w4 = trace w @ evs1 @ [EvNewSession True, EvPing s False]" by auto
  from attempt_Inr[OF rerun_ping_failed(3)] f5 obtain b v where
    t': "trace w' = trace w5 @ [EvReadFile filename False, EvNewSessionWithOptions p True,
           EvMFAPrompt p r True, EvWriteFile filename b True, EvNewSession True, EvPing s' False]"
    and m: "json_Marshal E v = Inr b"
    and c': "creds' = \<lparr>provider = AssumeRoleProvider p r, retrieved = Some v\<rparr>"
    and s': "s' = \<lparr>sess_Config = WithCredentials (WithCredentials cfg creds) creds'\<rparr>"
    and f': "files w' = (files w5)(filename \<mapsto> b)"
    by auto
  from t4 t5 t' have "events_since w w'
      = (evs1 @ [EvNewSession True, EvPing s False, EvRemove filename True,
           EvReadFile filename False, EvNewSessionWithOptions p True, EvMFAPrompt p r True])
        @ [EvWriteFile filename b True, EvNewSession True, EvPing s' False]"
    by (simp add: events_since_def)
  with m c' s' f' rerun_ping_failed(4) show ?thesis
    by (auto simp: WithCredentials_def)
qed

theorem fatal_rerun_leaves_fresh_credentials_witness:
  "count_events is_ping
     (events_since world_cached
        (snd (SessionWithConfig (test_env False) ''poweruser'' ''arn:aws:iam::1:role/power''
                ping_fail test_cfg world_cached))) = 2 \<and>
   fst (SessionWithConfig (test_env False) ''poweruser'' ''arn:aws:iam::1:role/power''
          ping_fail test_cfg world_cached)
     = Inl ''couldn't create main account session after first ping failed'' \<and>
   files (snd (SessionWithConfig (test_env False) ''poweruser'' ''arn:aws:iam::1:role/power''
                 ping_fail test_cfg world_cached)) filename = Some doc_new"
proof -
  let ?run = "SessionWithConfig (test_env False) ''poweruser'' ''arn:aws:iam::1:role/power''
                ping_fail test_cfg world_cached"
  have r: "?run = (fst ?run, snd ?run)" by simp
  have two: "count_events is_ping (events_since world_cached (snd ?run)) = 2"
    by (simp add: run_simps)
  have err: "isl (fst ?run)" by (simp add: run_simps)
  have kept: "files (snd ?run) filename = Some doc_new" by (simp add: run_simps)
  from fatal_rerun_leaves_fresh_credentials [OF r two err] two kept show ?thesis by blast
qed

section \<open>The error of the second ping\<close>

text \<open>
  C9. The claim asks that the error returned when the second ping fails wraps the
  error of the ping. On a cache file with credentials that the ping rejects with
  \<^verbatim>\<open>AccessDenied\<close> every time, the call returns a fixed message without that error:
  the rerun formats its error with a \<^verbatim>\<open>%v\<close> and no argument, and the first pass
  replaces the error of the rerun by a message of its own.
\<close>

theorem second_ping_error_is_dropped:
  "fst (SessionWithConfig (test_env False) ''poweruser'' ''arn:aws:iam::1:role/power''
          ping_fail test_cfg world_cached)
     = Inl ''couldn't create main account session after first ping failed'' \<and>
   fst (sessionWithConfigWrapper (test_env False) ''poweruser'' ''arn:aws:iam::1:role/power''
          ping_fail test_cfg True world_empty)
     = Inl ''failed to ping aws servers with created session: %!v(MISSING)'' \<and>
   ping_fail [] \<lparr>sess_Config = test_cfg\<rparr> = Some ''AccessDenied''"
  by (simp add: run_simps)

end
